theory Spec2Isabelle
  imports Main "HOL-Library.Word" "HOL-Library.Multiset"
begin

unbundle bit_operations_syntax

section \<open>Data model (filesystem module)\<close>

text \<open>
  \<^verbatim>\<open>type Filepath = string; type Base64String = Filepath;
  type FileEntry = [Filepath, Base64String];\<close>
  A \<open>FileEntry\<close> is a two-element array; the snapshot's \<open>files\<close> is an array of them.
  The entries are mutable objects owned by the snapshot, so a function that assigns to
  \<open>entry[0]\<close> returns the updated array next to its result.
\<close>

type_synonym Filepath = string
type_synonym Base64String = Filepath
type_synonym FileEntry = "Filepath \<times> Base64String"

abbreviation comma :: char where "comma \<equiv> CHR '',''"
abbreviation backslash :: char where "backslash \<equiv> CHR 0x5C"
abbreviation newline :: char where "newline \<equiv> CHR 0x0A"
abbreviation tab :: char where "tab \<equiv> CHR 0x09"

subsection \<open>String and array primitives of the language\<close>

text \<open>\<^verbatim>\<open>s.replace(/,/g, "\\,")\<close>: every comma becomes backslash, comma.\<close>

fun replace_commas :: "string \<Rightarrow> string" where
  "replace_commas [] = []"
| "replace_commas (c # cs) =
     (if c = comma then backslash # comma # replace_commas cs else c # replace_commas cs)"

text \<open>\<^verbatim>\<open>Array.prototype.join(sep)\<close> on an array of strings.\<close>

fun join :: "string \<Rightarrow> string list \<Rightarrow> string" where
  "join sep [] = []"
| "join sep [x] = x"
| "join sep (x # y # ys) = x @ sep @ join sep (y # ys)"

subsection \<open>asCSV and asTSV\<close>

text \<open>
  \<^verbatim>\<open>function asCSV(filesystem) {
    return ["filepath,content",
            ...filesystem.map((entry) => {
              entry[0] = entry[0].replace(/,/g, "\\,");
              return entry.join(","); })].join("\n"); }\<close>
  The callback assigns the escaped path to \<open>entry[0]\<close> of the stored entry before joining
  it, so the model returns the text together with the array as the call leaves it.
\<close>

definition csv_entry :: "FileEntry \<Rightarrow> FileEntry" where
  "csv_entry entry = (replace_commas (fst entry), snd entry)"

definition entry_join :: "string \<Rightarrow> FileEntry \<Rightarrow> string" where
  "entry_join sep entry = join sep [fst entry, snd entry]"

definition asCSV :: "FileEntry list \<Rightarrow> string \<times> FileEntry list" where
  "asCSV filesystem =
     (let written = map csv_entry filesystem
      in (join [newline] (''filepath,content'' # map (entry_join [comma]) written), written))"

text \<open>
  \<^verbatim>\<open>function asTSV(filesystem) {
    return ["filepath\tcontent", ...filesystem.map((entry) => entry.join("\t"))].join("\n"); }\<close>
\<close>

definition asTSV :: "FileEntry list \<Rightarrow> string" where
  "asTSV filesystem =
     join [newline] ((''filepath'' @ tab # ''content'') # map (entry_join [tab]) filesystem)"

subsection \<open>The snapshot object\<close>

text \<open>
  \<^verbatim>\<open>JSON.stringify\<close> on the values the module passes to it: strings and arrays. A string
  is quoted as ECMAScript's QuoteJSONString does: the double quote and the backslash are
  escaped, the control characters below 0x20 are written with their short escape or as
  \<open>\u00XX\<close>, and every other character stands for itself.
\<close>

datatype json = JSONString string | JSONArray "json list"

abbreviation dquote :: char where "dquote \<equiv> CHR 0x22"

definition hex_digit :: "nat \<Rightarrow> char" where
  "hex_digit n = ''0123456789abcdef'' ! (n mod 16)"

definition quote_json_char :: "char \<Rightarrow> string" where
  "quote_json_char c =
     (if c = dquote then [backslash, dquote]
      else if c = backslash then [backslash, backslash]
      else if c = CHR 0x08 then [backslash, CHR ''b'']
      else if c = CHR 0x0C then [backslash, CHR ''f'']
      else if c = newline then [backslash, CHR ''n'']
      else if c = CHR 0x0D then [backslash, CHR ''r'']
      else if c = tab then [backslash, CHR ''t'']
      else if (of_char c :: nat) < 0x20
        then backslash # ''u00'' @ [hex_digit (of_char c div 16), hex_digit (of_char c mod 16)]
      else [c])"

definition quote_json_string :: "string \<Rightarrow> string" where
  "quote_json_string s = dquote # concat (map quote_json_char s) @ [dquote]"

fun JSON_stringify :: "json \<Rightarrow> string" where
  "JSON_stringify (JSONString s) = quote_json_string s"
| "JSON_stringify (JSONArray vs) = ''['' @ join [comma] (map JSON_stringify vs) @ '']''"

text \<open>A \<open>FileEntry[]\<close> as the JSON value it is: an array of two-element arrays of strings.\<close>

definition files_json :: "FileEntry list \<Rightarrow> json" where
  "files_json fs = JSONArray (map (\<lambda>entry. JSONArray [JSONString (fst entry), JSONString (snd entry)]) fs)"

text \<open>
  \<^verbatim>\<open>reduction[filepath] = content\<close> on an object created by \<open>{}\<close>. The object inherits the
  accessor \<open>__proto__\<close> of \<open>Object.prototype\<close>, whose setter ignores a value that is neither
  an object nor \<open>null\<close>: assigning a string under that key creates no property. Under every
  other key the assignment creates or overwrites the own property.
\<close>

definition set_property :: "(string \<rightharpoonup> string) \<Rightarrow> string \<Rightarrow> string \<Rightarrow> (string \<rightharpoonup> string)" where
  "set_property obj key v = (if key = ''__proto__'' then obj else obj(key \<mapsto> v))"

text \<open>
  \<^verbatim>\<open>function FileSystem(files) {
    return { files,
      asJSON: () => JSON.stringify(files),
      asCSV: () => asCSV(files),
      asTSV: () => asTSV(files),
      toMap: () => files.reduce((reduction, [filepath, content]) => {
                     reduction[filepath] = content; return reduction; }, {}) }; }\<close>
  The four closures share the one array \<open>files\<close>. The object's state is that array; a
  method is a function of the state, and \<open>asCSV\<close>, which writes to the entries, returns
  the state it leaves.
\<close>

record FileSystem =
  files :: "FileEntry list"

definition FileSystem :: "FileEntry list \<Rightarrow> FileSystem" where
  "FileSystem fs = \<lparr>files = fs\<rparr>"

definition FileSystem_asJSON :: "FileSystem \<Rightarrow> string" where
  "FileSystem_asJSON this = JSON_stringify (files_json (files this))"

definition FileSystem_asCSV :: "FileSystem \<Rightarrow> string \<times> FileSystem" where
  "FileSystem_asCSV this = (case asCSV (files this) of (text, written) \<Rightarrow> (text, this\<lparr>files := written\<rparr>))"

definition FileSystem_asTSV :: "FileSystem \<Rightarrow> string" where
  "FileSystem_asTSV this = asTSV (files this)"

definition FileSystem_toMap :: "FileSystem \<Rightarrow> (string \<rightharpoonup> string)" where
  "FileSystem_toMap this =
     foldl (\<lambda>reduction (filepath, content). set_property reduction filepath content)
           Map.empty (files this)"

section \<open>The base64 coder (base64 module)\<close>

text \<open>
  Modelled from the spec: the base64 transform itself. The module only calls the runtime
  (\<^verbatim>\<open>Buffer.from(base64, "base64")\<close> and \<^verbatim>\<open>readFile(filepath, "base64")\<close>); the
  transform is the standard base64 of the specification (RFC 4648 alphabet, \<open>=\<close>
  padding), written here as the runtime computes it: the encoder maps each group of three
  bytes to four characters of the table and pads the last group. What the decoder does
  with text that is not base64 is the runtime's: it reads one sextet per character of the
  alphabet (also accepting \<open>-\<close> and \<open>_\<close> for 62 and 63), skips every other character,
  stops at the first \<open>=\<close>, and writes a byte as soon as the next sextet completes it.
\<close>

type_synonym byte = "8 word"

definition base64_table :: string where
  "base64_table = ''ABCDEFGHIJKLMNOPQRSTUVWXYZabcdefghijklmnopqrstuvwxyz0123456789+/''"

text \<open>
  Modelled from the spec: the encoder of the runtime. \<open>table[...]\<close> is an array read;
  every index the encoder passes is below 64 (lemmas \<open>sextet1\<close> to \<open>sextet4\<close> below),
  inside the table.
\<close>

definition table_char :: "byte \<Rightarrow> char" where
  "table_char x = base64_table ! unat x"

fun base64_encode :: "byte list \<Rightarrow> string" where
  "base64_encode (a # b # c # rest) =
     table_char (drop_bit 2 a)
     # table_char (push_bit 4 (a AND 0x03) OR drop_bit 4 b)
     # table_char (push_bit 2 (b AND 0x0F) OR drop_bit 6 c)
     # table_char (c AND 0x3F)
     # base64_encode rest"
| "base64_encode [a, b] =
     [table_char (drop_bit 2 a),
      table_char (push_bit 4 (a AND 0x03) OR drop_bit 4 b),
      table_char (push_bit 2 (b AND 0x0F)),
      CHR ''='']"
| "base64_encode [a] =
     [table_char (drop_bit 2 a), table_char (push_bit 4 (a AND 0x03)), CHR ''='', CHR ''='']"
| "base64_encode [] = []"

text \<open>
  Modelled from the spec: the decoder of the runtime. \<open>unbase64\<close> is its reverse table
  (\<open>None\<close> for a character outside the alphabet), \<open>base64_sextets\<close> its scan of the
  text, \<open>base64_unpack\<close> the bytes it writes.
\<close>

definition unbase64 :: "char \<Rightarrow> byte option" where
  "unbase64 c =
     (let n = (of_char c :: nat) in
      if 65 \<le> n \<and> n \<le> 90 then Some (of_nat (n - 65))
      else if 97 \<le> n \<and> n \<le> 122 then Some (of_nat (n - 71))
      else if 48 \<le> n \<and> n \<le> 57 then Some (of_nat (n + 4))
      else if c = CHR ''+'' \<or> c = CHR ''-'' then Some 62
      else if c = CHR ''/'' \<or> c = CHR ''_'' then Some 63
      else None)"

fun base64_sextets :: "string \<Rightarrow> byte list" where
  "base64_sextets [] = []"
| "base64_sextets (c # cs) =
     (case unbase64 c of
        Some v \<Rightarrow> v # base64_sextets cs
      | None \<Rightarrow> if c = CHR ''='' then [] else base64_sextets cs)"

fun base64_unpack :: "byte list \<Rightarrow> byte list" where
  "base64_unpack (s0 # s1 # s2 # s3 # rest) =
     (push_bit 2 (s0 AND 0x3F) OR drop_bit 4 (s1 AND 0x30))
     # (push_bit 4 (s1 AND 0x0F) OR drop_bit 2 (s2 AND 0x3C))
     # (push_bit 6 (s2 AND 0x03) OR (s3 AND 0x3F))
     # base64_unpack rest"
| "base64_unpack [s0, s1, s2] =
     [push_bit 2 (s0 AND 0x3F) OR drop_bit 4 (s1 AND 0x30),
      push_bit 4 (s1 AND 0x0F) OR drop_bit 2 (s2 AND 0x3C)]"
| "base64_unpack [s0, s1] = [push_bit 2 (s0 AND 0x3F) OR drop_bit 4 (s1 AND 0x30)]"
| "base64_unpack [s0] = []"
| "base64_unpack [] = []"

definition base64_decode :: "string \<Rightarrow> byte list" where
  "base64_decode s = base64_unpack (base64_sextets s)"


subsection \<open>Thrown values and wrapError (error-handling module)\<close>

text \<open>
  The values the module throws and catches: \<open>undefined\<close>, a string, an array of
  strings, or an \<open>Error\<close> object (its name and message).
  \<^verbatim>\<open>export function wrapError(value) {
    return value instanceof Error ? value : Error(value); }\<close>
  \<open>Error(value)\<close> takes \<open>String(value)\<close> as its message, and no message for
  \<open>undefined\<close>.
\<close>

datatype js_value =
    JSUndefined
  | JSString string
  | JSStrings "string list"
  | JSError string string

fun wrapError :: "js_value \<Rightarrow> js_value" where
  "wrapError (JSError name message) = JSError name message"
| "wrapError JSUndefined = JSError ''Error'' []"
| "wrapError (JSString s) = JSError ''Error'' s"
| "wrapError (JSStrings xs) = JSError ''Error'' (join [comma] xs)"

subsection \<open>Base64.decode and Base64.encode\<close>

text \<open>
  \<^verbatim>\<open>decode: async (base64) => { let buffer = Buffer.from(base64, "base64"); return buffer; }
  encode: async (filepath) => { let base64 = readFile(filepath, "base64"); return base64; }\<close>
  A promise's outcome is a sum: \<open>Inl\<close> the rejection value, \<open>Inr\<close> the fulfilment value.
  \<open>readFile\<close> is the file system: per path, the error it rejects with or the file's bytes.
\<close>

definition Base64_decode :: "Base64String \<Rightarrow> js_value + byte list" where
  "Base64_decode base64 = Inr (base64_decode base64)"

definition Base64_encode :: "(Filepath \<Rightarrow> js_value + byte list) \<Rightarrow> Filepath \<Rightarrow> js_value + Base64String" where
  "Base64_encode readFile path =
     (case readFile path of Inl err \<Rightarrow> Inl err | Inr bytes \<Rightarrow> Inr (base64_encode bytes))"

section \<open>Building the snapshot (Base64Filesystem)\<close>

subsection \<open>Promise.all\<close>

text \<open>
  \<open>Promise.all\<close> keeps one slot per input promise. When the promise at index \<open>i\<close> is
  fulfilled its value is stored in slot \<open>i\<close>; the first promise to be rejected rejects the
  whole; when every slot is filled the whole is fulfilled with the slots, in index order.
  The order in which the promises settle is a parameter: the list of indices in settling
  order. An index outside the array names no promise and is skipped. \<open>None\<close> is a
  promise that never settles (an order that leaves out some index).
\<close>

fun Promise_all_settle ::
  "nat list \<Rightarrow> (js_value + 'a) list \<Rightarrow> 'a option list \<Rightarrow> (js_value + 'a list) option" where
  "Promise_all_settle [] promises slots = map_option Inr (those slots)"
| "Promise_all_settle (i # order) promises slots =
     (if i < length promises
      then (case promises ! i of
              Inl reason \<Rightarrow> Some (Inl reason)
            | Inr v \<Rightarrow> Promise_all_settle order promises (slots[i := Some v]))
      else Promise_all_settle order promises slots)"

definition Promise_all :: "nat list \<Rightarrow> (js_value + 'a) list \<Rightarrow> (js_value + 'a list) option" where
  "Promise_all order promises =
     Promise_all_settle order promises (replicate (length promises) None)"

subsection \<open>Base64Filesystem\<close>

text \<open>
  \<^verbatim>\<open>let fileGlob = await glob(globPattern).catch((err) => {
    console.error(...);
    throw wrapError(fileGlob);
  });\<close>
  The callback runs while the initialiser of \<open>fileGlob\<close> is still being evaluated, so the
  binding it reads is not initialised yet: reading it throws a \<open>ReferenceError\<close> before
  \<open>wrapError\<close> is called, and the parameter \<open>err\<close> is not used.
\<close>

datatype 'a binding = Uninitialised | Initialised 'a

definition read_binding :: "string \<Rightarrow> js_value binding \<Rightarrow> js_value + js_value" where
  "read_binding name b =
     (case b of
        Uninitialised \<Rightarrow>
          Inl (JSError ''ReferenceError''
                 (''Cannot access '' @ [CHR 0x27] @ name @ [CHR 0x27] @ '' before initialization''))
      | Initialised v \<Rightarrow> Inr v)"

definition glob_catch :: "js_value binding \<Rightarrow> js_value \<Rightarrow> js_value" where
  "glob_catch fileGlob err =
     (case read_binding ''fileGlob'' fileGlob of
        Inl thrown \<Rightarrow> thrown
      | Inr v \<Rightarrow> wrapError v)"

text \<open>
  \<^verbatim>\<open>let filtered = filters.reduce((values, filter) => values.filter(filter), fileGlob);\<close>
\<close>

definition apply_filters :: "(Filepath \<Rightarrow> bool) list \<Rightarrow> Filepath list \<Rightarrow> Filepath list" where
  "apply_filters filters fileGlob = foldl (\<lambda>values flt. filter flt values) fileGlob filters"

text \<open>
  \<^verbatim>\<open>let fileReads = filtered.map(async (filepath) => {
    let contents = await Base64.encode(filepath);
    console.info(`encoded: ${filepath}`);
    return { contents, filepath }; });\<close>
\<close>

record encoded_file =
  contents :: Base64String
  filepath :: Filepath

definition read_and_encode ::
  "(Filepath \<Rightarrow> js_value + byte list) \<Rightarrow> Filepath \<Rightarrow> js_value + encoded_file" where
  "read_and_encode readFile path =
     (case Base64_encode readFile path of
        Inl err \<Rightarrow> Inl err
      | Inr encoded \<Rightarrow> Inr \<lparr>contents = encoded, filepath = path\<rparr>)"

text \<open>
  The whole function. Its environment is explicit: \<open>glob\<close> gives the outcome of the glob
  expansion of a pattern, \<open>readFile\<close> the outcome of reading a path, \<open>order\<close> the order
  in which the concurrent reads settle. The three \<open>catch\<close> handlers are the three
  \<open>wrapError\<close> calls: the glob handler, the \<open>Promise.all\<close> handler, and the outer
  \<open>try\<close>/\<open>catch\<close> that rewraps whatever the body threw. Console output is not part of
  the result and is left out.
\<close>

definition Base64Filesystem ::
  "(string \<Rightarrow> js_value + Filepath list) \<Rightarrow> (Filepath \<Rightarrow> js_value + byte list) \<Rightarrow> nat list
   \<Rightarrow> string \<Rightarrow> (Filepath \<Rightarrow> bool) list \<Rightarrow> (js_value + FileSystem) option" where
  "Base64Filesystem glob readFile order globPattern filters =
     (case glob globPattern of
        Inl err \<Rightarrow> Some (Inl (wrapError (glob_catch Uninitialised err)))
      | Inr fileGlob \<Rightarrow>
          (let filtered = apply_filters filters fileGlob;
               fileReads = map (read_and_encode readFile) filtered
           in case Promise_all order fileReads of
                None \<Rightarrow> None
              | Some (Inl err) \<Rightarrow> Some (Inl (wrapError (wrapError err)))
              | Some (Inr read) \<Rightarrow>
                  Some (Inr (FileSystem (map (\<lambda>f. (filepath f, contents f)) read)))))"

section \<open>Reading a CSV row back\<close>

text \<open>
  The decoding the specification describes for a row of the CSV text: the row is split at
  the commas that no backslash precedes, and in a field each sequence backslash, comma is
  replaced by a comma. The path is the first field.
\<close>

fun csv_first_field :: "string \<Rightarrow> string" where
  "csv_first_field [] = []"
| "csv_first_field [c] = (if c = comma then [] else [c])"
| "csv_first_field (c # d # cs) =
     (if c = comma then []
      else if c = backslash \<and> d = comma then c # d # csv_first_field cs
      else c # csv_first_field (d # cs))"

fun csv_unescape :: "string \<Rightarrow> string" where
  "csv_unescape [] = []"
| "csv_unescape [c] = [c]"
| "csv_unescape (c # d # cs) =
     (if c = backslash \<and> d = comma then comma # csv_unescape cs
      else c # csv_unescape (d # cs))"

definition csv_decode_path :: "string \<Rightarrow> string" where
  "csv_decode_path row = csv_unescape (csv_first_field row)"

definition ends_with_backslash :: "string \<Rightarrow> bool" where
  "ends_with_backslash p = (p \<noteq> [] \<and> last p = backslash)"

section \<open>Properties\<close>

subsection \<open>The serialised views\<close>

lemma join_newline_rows: "join [newline] (h # rows) = h @ concat (map ((#) newline) rows)"
  by (induction rows arbitrary: h) simp_all

lemma replace_commas_concat:
  "replace_commas p = concat (map (\<lambda>ch. if ch = comma then [backslash, comma] else [ch]) p)"
  by (induction p) simp_all

lemma asCSV_text:
  "fst (asCSV filesystem) =
     ''filepath,content'' @
     concat (map (\<lambda>entry. newline # replace_commas (fst entry) @ comma # snd entry) filesystem)"
  by (simp add: asCSV_def Let_def join_newline_rows comp_def csv_entry_def entry_join_def)

lemma asCSV_written: "snd (asCSV filesystem) = map csv_entry filesystem"
  by (simp add: asCSV_def Let_def)

lemma asTSV_text:
  "asTSV filesystem =
     ''filepath'' @ tab # ''content'' @
     concat (map (\<lambda>entry. newline # fst entry @ tab # snd entry) filesystem)"
  by (simp add: asTSV_def join_newline_rows comp_def entry_join_def)

text \<open>
  C8. For every snapshot, the text of \<open>asCSV()\<close> is the header line \<open>filepath,content\<close>
  followed, for each entry in order, by a newline and the row \<open>escapedPath,content\<close>, where
  the escaped path has every comma of the stored path replaced by backslash-comma; there is
  no newline after the last row, and the empty snapshot gives the header alone.
\<close>

theorem asCSV_format:
  "fst (asCSV filesystem) =
     ''filepath,content'' @
     concat (map (\<lambda>(p, c). newline #
                    concat (map (\<lambda>ch. if ch = comma then [backslash, comma] else [ch]) p)
                    @ comma # c) filesystem)
   \<and> fst (asCSV []) = ''filepath,content''"
  by (simp add: asCSV_text replace_commas_concat split_def)

text \<open>
  C1. The specification has \<open>asJSON()\<close> give the JSON text of \<open>toMap()\<close>, an object.
  The method stringifies the array \<open>files\<close> itself: for the entries
  \<open>a.txt \<mapsto> aGk=\<close>, \<open>b.txt \<mapsto> eW8=\<close> the text is an array of pairs, for the empty
  snapshot it is \<open>[]\<close>, and for every snapshot the text opens with a bracket, so it never
  parses to a mapping.
\<close>

theorem asJSON_is_array_text:
  \<open>FileSystem_asJSON (FileSystem [(''a.txt'', ''aGk=''), (''b.txt'', ''eW8='')])
     = ''[["a.txt","aGk="],["b.txt","eW8="]]''
   \<and> FileSystem_asJSON (FileSystem []) = ''[]''
   \<and> (\<forall>this. hd (FileSystem_asJSON this) = CHR ''['')\<close>
  by (simp add: FileSystem_asJSON_def FileSystem_def files_json_def quote_json_string_def
      quote_json_char_def)

text \<open>
  C2. \<open>asCSV()\<close> is not pure. On the snapshot with the one entry \<open>a,b \<mapsto> eA==\<close> the call
  leaves the stored path escaped; a second call escapes it again and returns a different
  text; \<open>toMap()\<close> has the key \<open>a,b\<close> before the call and not after it.
\<close>

theorem asCSV_writes_stored_path:
  "FileSystem_asCSV (FileSystem [(''a,b'', ''eA=='')])
     = (''filepath,content'' @ [newline] @ ''a'' @ [backslash] @ '',b,eA=='',
        FileSystem [(''a'' @ [backslash] @ '',b'', ''eA=='')])
   \<and> fst (FileSystem_asCSV (snd (FileSystem_asCSV (FileSystem [(''a,b'', ''eA=='')]))))
     = ''filepath,content'' @ [newline] @ ''a'' @ [backslash, backslash] @ '',b,eA==''
   \<and> FileSystem_toMap (FileSystem [(''a,b'', ''eA=='')]) ''a,b'' = Some ''eA==''
   \<and> FileSystem_toMap (snd (FileSystem_asCSV (FileSystem [(''a,b'', ''eA=='')]))) ''a,b'' = None"
  by (simp add: FileSystem_asCSV_def FileSystem_def asCSV_def csv_entry_def entry_join_def
      FileSystem_toMap_def set_property_def)

subsection \<open>Reading the path back from a CSV row\<close>

lemma replace_commas_not_comma_first: "replace_commas p \<noteq> comma # xs"
  by (cases p) auto

lemma replace_commas_Nil_iff: "replace_commas p = [] \<longleftrightarrow> p = []"
  by (cases p) auto

lemma csv_unescape_replace_commas: "csv_unescape (replace_commas p) = p"
proof (induction p)
  case Nil
  show ?case by simp
next
  case (Cons ch p)
  show ?case
  proof (cases "ch = comma")
    case True
    with Cons show ?thesis by simp
  next
    case False
    show ?thesis
    proof (cases "replace_commas p")
      case Nil
      with False show ?thesis by (simp add: replace_commas_Nil_iff)
    next
      case (Cons d ds)
      then have "d \<noteq> comma" using replace_commas_not_comma_first [of p ds] by auto
      with False Cons Cons.IH show ?thesis by simp
    qed
  qed
qed

lemma csv_first_field_row:
  "\<not> ends_with_backslash p \<Longrightarrow> csv_first_field (replace_commas p @ comma # c) = replace_commas p"
proof (induction p)
  case Nil
  show ?case by (cases c) simp_all
next
  case (Cons ch p)
  have rest: "\<not> ends_with_backslash p"
    using Cons.prems by (auto simp: ends_with_backslash_def)
  obtain d cs where row: "replace_commas p @ comma # c = d # cs"
    by (cases "replace_commas p @ comma # c") auto
  show ?case
  proof (cases "ch = comma")
    case True
    with Cons.IH [OF rest] show ?thesis by simp
  next
    case False
    have "\<not> (ch = backslash \<and> d = comma)"
    proof
      assume h: "ch = backslash \<and> d = comma"
      with row have "replace_commas p = []"
        using replace_commas_not_comma_first [of p] by (cases "replace_commas p") auto
      then have "p = []" by (simp add: replace_commas_Nil_iff)
      with h Cons.prems show False by (simp add: ends_with_backslash_def)
    qed
    with False row Cons.IH [OF rest] show ?thesis by auto
  qed
qed

text \<open>
  C4, as the specification states it, fails: a path that ends in a backslash makes the
  separating comma of its row read as an escaped one, so the first field runs on into the
  content. For the path \<open>a\\<close> with content \<open>eA==\<close> the row is \<open>a\,eA==\<close>, which decodes to
  \<open>a,eA==\<close>.
\<close>

theorem csv_path_trailing_backslash_counterexample:
  "csv_decode_path (entry_join [comma] (csv_entry ([CHR ''a'', backslash], ''eA=='')))
     \<noteq> [CHR ''a'', backslash]"
  by (simp add: csv_decode_path_def entry_join_def csv_entry_def)

text \<open>
  C4, amended. For every entry whose path does not end in a backslash, decoding the path
  field of its CSV row (the row \<open>asCSV\<close> writes for it) gives back the stored path, whatever
  commas and backslashes the path has elsewhere.
\<close>

theorem csv_path_round_trip:
  "\<not> ends_with_backslash path \<Longrightarrow>
     csv_decode_path (entry_join [comma] (csv_entry (path, content))) = path"
  by (simp add: csv_decode_path_def entry_join_def csv_entry_def csv_first_field_row
      csv_unescape_replace_commas)

theorem csv_path_round_trip_witness:
  "\<not> ends_with_backslash (''a'' @ [backslash] @ '',b,c'') \<and>
   csv_decode_path (entry_join [comma] (csv_entry (''a'' @ [backslash] @ '',b,c'', ''eA=='')))
     = ''a'' @ [backslash] @ '',b,c''"
  using csv_path_round_trip [of "''a'' @ [backslash] @ '',b,c''" "''eA==''"]
  by (simp add: ends_with_backslash_def)

subsection \<open>The map view\<close>

lemma set_property_fold:
  "foldl (\<lambda>reduction (filepath, content). set_property reduction filepath content) m fs k =
     (if k = ''__proto__'' then m k
      else case map_of (rev fs) k of None \<Rightarrow> m k | Some v \<Rightarrow> Some v)"
proof (induction fs arbitrary: m)
  case Nil
  show ?case by simp
next
  case (Cons e fs)
  show ?case
  proof (cases e)
    case (Pair a b)
    have "foldl (\<lambda>reduction (filepath, content). set_property reduction filepath content) m (e # fs) k
          = (if k = ''__proto__'' then set_property m a b k
             else case map_of (rev fs) k of None \<Rightarrow> set_property m a b k | Some v \<Rightarrow> Some v)"
      by (simp add: Pair Cons.IH)
    then show ?thesis
      by (auto simp: Pair set_property_def map_add_def split: option.splits)
  qed
qed

text \<open>
  What \<open>toMap()\<close> holds: under every key but \<open>__proto__\<close>, the content of the last entry
  with that path; under \<open>__proto__\<close>, nothing.
\<close>

lemma toMap_lookup:
  "FileSystem_toMap this k =
     (if k = ''__proto__'' then None else map_of (rev (files this)) k)"
  by (simp add: FileSystem_toMap_def set_property_fold split: option.splits)

lemma toMap_last_wins:
  "p \<noteq> ''__proto__'' \<Longrightarrow> FileSystem_toMap (FileSystem (fs @ [(p, c)])) p = Some c"
  by (simp add: toMap_lookup FileSystem_def)

lemma toMap_dom:
  "dom (FileSystem_toMap this) = fst ` set (files this) - {''__proto__''}"
proof -
  have "dom (FileSystem_toMap this) = dom (map_of (rev (files this))) - {''__proto__''}"
    by (auto simp: toMap_lookup dom_def split: if_splits)
  then show ?thesis by (simp add: dom_map_of_conv_image_fst)
qed

text \<open>
  C7. The claim has \<open>toMap()\<close> hold exactly one key per distinct path, with the content
  of the later entry. The assignment \<open>reduction[filepath] = content\<close> creates no property
  when the path is \<open>__proto__\<close>: for the two entries \<open>__proto__ \<mapsto> eA==\<close> and
  \<open>__proto__ \<mapsto> eQ==\<close> the map has no key at all, where the claim has the one key with
  \<open>eQ==\<close>, while the TSV text has both rows. One such entry is enough for the key to be
  missing.
\<close>

theorem toMap_drops_proto_path:
  "FileSystem_toMap (FileSystem [(''__proto__'', ''eA==''), (''__proto__'', ''eQ=='')]) = Map.empty
   \<and> FileSystem_asTSV (FileSystem [(''__proto__'', ''eA==''), (''__proto__'', ''eQ=='')])
       = ''filepath'' @ [tab] @ ''content'' @ [newline] @ ''__proto__'' @ [tab] @ ''eA==''
         @ [newline] @ ''__proto__'' @ [tab] @ ''eQ==''
   \<and> FileSystem_toMap (FileSystem [(''__proto__'', ''eA=='')]) = Map.empty"
  by (simp add: FileSystem_toMap_def FileSystem_asTSV_def FileSystem_def set_property_def
      asTSV_def entry_join_def)

subsection \<open>Filters\<close>

lemma apply_filters_conj:
  "apply_filters filters paths = filter (\<lambda>p. list_all (\<lambda>f. f p) filters) paths"
  unfolding apply_filters_def
proof (induction filters arbitrary: paths)
  case Nil
  show ?case by simp
next
  case (Cons f filters)
  show ?case by (simp add: Cons.IH conj_commute)
qed

text \<open>
  C9. The left-to-right fold of the filters keeps exactly the paths on which every
  predicate holds, in their order, and a permutation of the predicates gives the same
  list.
\<close>

theorem filters_are_conjunction:
  assumes "mset filters' = mset filters"
  shows "apply_filters filters paths = filter (\<lambda>p. list_all (\<lambda>f. f p) filters) paths
         \<and> apply_filters filters' paths = apply_filters filters paths"
proof -
  have "set filters' = set filters" using assms by (rule mset_eq_setD)
  then show ?thesis by (simp add: apply_filters_conj list_all_iff)
qed

theorem filters_are_conjunction_witness:
  "mset [\<lambda>p. p \<noteq> ''b.txt'', \<lambda>p. length p < 6] = mset [\<lambda>p. length p < 6, \<lambda>p. p \<noteq> ''b.txt'']
   \<and> apply_filters [\<lambda>p. length p < 6, \<lambda>p. p \<noteq> ''b.txt'']
        [''a.txt'', ''b.txt'', ''long.txt'', ''c.md''] = [''a.txt'', ''c.md'']
   \<and> apply_filters [\<lambda>p. p \<noteq> ''b.txt'', \<lambda>p. length p < 6]
        [''a.txt'', ''b.txt'', ''long.txt'', ''c.md''] = [''a.txt'', ''c.md'']"
  using filters_are_conjunction
    [of "[\<lambda>p. p \<noteq> ''b.txt'', \<lambda>p. length p < 6]" "[\<lambda>p. length p < 6, \<lambda>p. p \<noteq> ''b.txt'']"
        "[''a.txt'', ''b.txt'', ''long.txt'', ''c.md'']"]
  by (simp add: add_mset_commute)

subsection \<open>Failure of the glob expansion\<close>

text \<open>
  C3. The specification has the failure carry the original cause. The handler of the
  glob promise throws \<open>wrapError(fileGlob)\<close>, not \<open>wrapError(err)\<close>: whatever the
  expansion was rejected with, \<open>Base64Filesystem\<close> is rejected with the same
  \<open>ReferenceError\<close>, in which nothing of the cause is left. (Were the binding readable
  and still \<open>undefined\<close>, as it is when \<open>let\<close> is compiled to \<open>var\<close>, the handler would
  throw an \<open>Error\<close> with no message, again whatever the cause.)
\<close>

theorem glob_failure_loses_cause:
  "Base64Filesystem (\<lambda>pattern. Inl cause) readFile order globPattern filters
     = Some (Inl (JSError ''ReferenceError''
                   (''Cannot access '' @ [CHR 0x27] @ ''fileGlob'' @ [CHR 0x27]
                    @ '' before initialization'')))
   \<and> wrapError (glob_catch (Initialised JSUndefined) cause) = JSError ''Error'' []"
  by (simp add: Base64Filesystem_def glob_catch_def read_binding_def)

subsection \<open>The base64 coder\<close>

text \<open>
  The reverse table inverts the table on the 64 indices, and no table character is the
  padding sign; the sextets the encoder forms are below 64; the decoder's shifts and masks
  put the three bytes of a group together again.
\<close>

lemma table_entries:
  "list_all (\<lambda>n. unbase64 (base64_table ! n) = Some (of_nat n) \<and> base64_table ! n \<noteq> CHR ''='')
     [0..<64]"
  by (simp add: upt_rec base64_table_def unbase64_def)

lemma unbase64_table_char:
  assumes "unat x < 64"
  shows "unbase64 (table_char x) = Some x" and "table_char x \<noteq> CHR ''=''"
  using table_entries assms by (simp_all add: list_all_iff table_char_def)

lemma unbase64_pad: "unbase64 (CHR ''='') = None"
  by (simp add: unbase64_def)

lemma masks: "(0x3F::byte) = mask 6" "(0x03::byte) = mask 2" "(0x0F::byte) = mask 4"
  "(0x30::byte) = push_bit 4 (mask 2)" "(0x3C::byte) = push_bit 2 (mask 4)"
  by (simp_all add: mask_eq_exp_minus_1)

lemma suc_sub:
  "Suc (Suc (n - 2)) = (if 2 \<le> n then n else 2)"
  "Suc (Suc (Suc (Suc (n - 4)))) = (if 4 \<le> n then n else 4)"
  "Suc (Suc (Suc (Suc (Suc (Suc (n - 6)))))) = (if 6 \<le> n then n else 6)"
  "2 + (n - 2) = (if 2 \<le> n then n else 2)"
  "4 + (n - 4) = (if 4 \<le> n then n else 4)"
  "6 + (n - 6) = (if 6 \<le> n then n else 6)"
  by auto

lemma byte_bit_bound: "bit (a::byte) n \<Longrightarrow> n < 8"
  using bit_imp_le_length [of a n] by simp

lemma sextet_bound: "x AND mask 6 = x \<Longrightarrow> unat (x::byte) < 64"
proof -
  assume "x AND mask 6 = x"
  then have "unat x = unat (take_bit 6 x)" by (simp add: take_bit_eq_mask)
  also have "\<dots> = take_bit 6 (unat x)" by (simp add: unsigned_take_bit_eq)
  also have "\<dots> < 2 ^ 6" by (rule take_bit_nat_less_exp)
  finally show ?thesis by simp
qed

lemma sextet1: "unat (drop_bit 2 (a::byte)) < 64"
  by (rule sextet_bound, rule bit_word_eqI) (auto simp: bit_simps dest: byte_bit_bound)

lemma sextet2: "unat (push_bit 4 (a AND 0x03) OR drop_bit 4 (b::byte)) < 64"
  unfolding masks
  by (rule sextet_bound, rule bit_word_eqI) (auto simp: bit_simps dest: byte_bit_bound)

lemma sextet2': "unat (push_bit 4 ((a::byte) AND 0x03)) < 64"
  unfolding masks
  by (rule sextet_bound, rule bit_word_eqI) (auto simp: bit_simps dest: byte_bit_bound)

lemma sextet3: "unat (push_bit 2 (b AND 0x0F) OR drop_bit 6 (c::byte)) < 64"
  unfolding masks
  by (rule sextet_bound, rule bit_word_eqI) (auto simp: bit_simps dest: byte_bit_bound)

lemma sextet3': "unat (push_bit 2 ((b::byte) AND 0x0F)) < 64"
  unfolding masks
  by (rule sextet_bound, rule bit_word_eqI) (auto simp: bit_simps dest: byte_bit_bound)

lemma sextet4: "unat ((c::byte) AND 0x3F) < 64"
  unfolding masks
  by (rule sextet_bound, rule bit_word_eqI) (auto simp: bit_simps dest: byte_bit_bound)

lemmas sextets_in_range = sextet1 sextet2 sextet2' sextet3 sextet3' sextet4

lemma byte0a:
  "push_bit 2 (drop_bit 2 a AND 0x3F) OR drop_bit 4 ((push_bit 4 (a AND 0x03) OR drop_bit 4 b) AND 0x30) = (a::byte)"
  unfolding masks
  by (rule bit_word_eqI) (auto simp: bit_simps suc_sub split: if_splits dest: byte_bit_bound)

lemma byte0b:
  "push_bit 2 (drop_bit 2 a AND 0x3F) OR drop_bit 4 (push_bit 4 (a AND 0x03) AND 0x30) = (a::byte)"
  unfolding masks
  by (rule bit_word_eqI) (auto simp: bit_simps suc_sub split: if_splits dest: byte_bit_bound)

lemma byte1a:
  "push_bit 4 ((push_bit 4 (a AND 0x03) OR drop_bit 4 b) AND 0x0F) OR drop_bit 2 ((push_bit 2 (b AND 0x0F) OR drop_bit 6 c) AND 0x3C) = (b::byte)"
  unfolding masks
  by (rule bit_word_eqI) (auto simp: bit_simps suc_sub split: if_splits dest: byte_bit_bound)

lemma byte1b:
  "push_bit 4 ((push_bit 4 (a AND 0x03) OR drop_bit 4 b) AND 0x0F) OR drop_bit 2 (push_bit 2 (b AND 0x0F) AND 0x3C) = (b::byte)"
  unfolding masks
  by (rule bit_word_eqI) (auto simp: bit_simps suc_sub split: if_splits dest: byte_bit_bound)

lemma byte2:
  "push_bit 6 ((push_bit 2 (b AND 0x0F) OR drop_bit 6 c) AND 0x03) OR ((c AND 0x3F) AND 0x3F) = (c::byte)"
  unfolding masks
  by (rule bit_word_eqI) (auto simp: bit_simps suc_sub split: if_splits dest: byte_bit_bound)

lemma sextets_table_char:
  "unat x < 64 \<Longrightarrow> base64_sextets (table_char x # cs) = x # base64_sextets cs"
  by (simp add: unbase64_table_char)

lemma sextets_pad: "base64_sextets (CHR ''='' # cs) = []"
  by (simp add: unbase64_pad)

lemma decode_group3:
  "base64_decode
     (table_char (drop_bit 2 a)
      # table_char (push_bit 4 (a AND 0x03) OR drop_bit 4 b)
      # table_char (push_bit 2 (b AND 0x0F) OR drop_bit 6 c)
      # table_char (c AND 0x3F)
      # cs) = a # b # c # base64_decode cs"
  unfolding base64_decode_def
  by (simp only: sextets_table_char sextets_in_range base64_unpack.simps byte0a byte1a byte2)

lemma decode_group2:
  "base64_decode
     [table_char (drop_bit 2 a),
      table_char (push_bit 4 (a AND 0x03) OR drop_bit 4 b),
      table_char (push_bit 2 (b AND 0x0F)),
      CHR ''=''] = [a, b]"
  unfolding base64_decode_def
  by (simp only: sextets_table_char sextets_in_range sextets_pad base64_unpack.simps byte0a byte1b)

lemma decode_group1:
  "base64_decode
     [table_char (drop_bit 2 a), table_char (push_bit 4 (a AND 0x03)), CHR ''='', CHR ''='']
   = [a]"
  unfolding base64_decode_def
  by (simp only: sextets_table_char sextets_in_range sextets_pad base64_unpack.simps byte0b)

lemma decode_empty: "base64_decode [] = []"
  by (simp add: base64_decode_def)

lemma base64_decode_encode: "base64_decode (base64_encode bs) = bs"
  by (induction bs rule: base64_encode.induct)
     (simp_all only: base64_encode.simps decode_group3 decode_group2 decode_group1 decode_empty)


text \<open>
  C5. For every byte sequence \<open>B\<close>, decoding the base64 text of \<open>B\<close> gives back \<open>B\<close>;
  the text is the one \<open>Base64.encode\<close> returns for a file whose bytes are \<open>B\<close>.
\<close>

theorem Base64_round_trip:
  "Base64_decode (base64_encode B) = Inr B
   \<and> Base64_encode (\<lambda>path. Inr B) p = Inr (base64_encode B)"
  by (simp add: Base64_decode_def Base64_encode_def base64_decode_encode)


subsection \<open>Order of the snapshot\<close>

lemma those_map_Some: "those (map Some xs) = Some xs"
  by (induction xs) simp_all

lemma Promise_all_settle_fulfilled:
  "length slots = length vs \<Longrightarrow>
   Promise_all_settle order (map Inr vs) slots =
     map_option Inr (those (map (\<lambda>i. if i \<in> set order then Some (vs ! i) else slots ! i)
                             [0..<length vs]))"
proof (induction order arbitrary: slots)
  case Nil
  have "map (\<lambda>i. slots ! i) [0..<length slots] = slots" by (rule map_nth)
  with Nil show ?case by simp
next
  case (Cons i order)
  show ?case
  proof (cases "i < length vs")
    case True
    have same: "map (\<lambda>j. if j \<in> set order then Some (vs ! j) else slots[i := Some (vs ! i)] ! j) [0..<length vs]
        = map (\<lambda>j. if j \<in> set (i # order) then Some (vs ! j) else slots ! j) [0..<length vs]"
      using Cons.prems True by (auto simp: nth_list_update)
    have "Promise_all_settle (i # order) (map Inr vs) slots
        = Promise_all_settle order (map Inr vs) (slots[i := Some (vs ! i)])"
      using True by simp
    also have "\<dots> = map_option Inr (those (map (\<lambda>j. if j \<in> set order then Some (vs ! j)
                 else slots[i := Some (vs ! i)] ! j) [0..<length vs]))"
      using Cons.prems by (intro Cons.IH) simp
    finally show ?thesis by (simp only: same)
  next
    case False
    have same: "map (\<lambda>j. if j \<in> set order then Some (vs ! j) else slots ! j) [0..<length vs]
        = map (\<lambda>j. if j \<in> set (i # order) then Some (vs ! j) else slots ! j) [0..<length vs]"
      using False by auto
    have "Promise_all_settle (i # order) (map Inr vs) slots
        = Promise_all_settle order (map Inr vs) slots"
      using False by simp
    also have "\<dots> = map_option Inr (those (map (\<lambda>j. if j \<in> set order then Some (vs ! j)
                 else slots ! j) [0..<length vs]))"
      using Cons.prems by (intro Cons.IH)
    finally show ?thesis by (simp only: same)
  qed
qed

lemma Promise_all_fulfilled:
  assumes "{..<length vs} \<subseteq> set order"
  shows "Promise_all order (map Inr vs) = Some (Inr vs)"
proof -
  have "map (\<lambda>i. if i \<in> set order then Some (vs ! i) else replicate (length vs) None ! i) [0..<length vs]
      = map Some (map ((!) vs) [0..<length vs])"
    using assms by auto
  then show ?thesis
    by (simp add: Promise_all_def Promise_all_settle_fulfilled those_map_Some map_nth)
qed


lemma fileReads_fulfilled:
  assumes "list_all (\<lambda>p. readFile p = Inr (content p)) paths"
  shows "map (read_and_encode readFile) paths
       = map Inr (map (\<lambda>p. \<lparr>contents = base64_encode (content p), filepath = p\<rparr>) paths)"
  using assms by (induction paths) (simp_all add: read_and_encode_def Base64_encode_def)

lemma Base64Filesystem_fulfilled:
  assumes "glob globPattern = Inr fileGlob"
    and "list_all (\<lambda>p. readFile p = Inr (content p)) (apply_filters filters fileGlob)"
    and "mset order = mset [0..<length (apply_filters filters fileGlob)]"
  shows "Base64Filesystem glob readFile order globPattern filters
       = Some (Inr (FileSystem (map (\<lambda>p. (p, base64_encode (content p)))
                                   (apply_filters filters fileGlob))))"
proof -
  define filtered where "filtered = apply_filters filters fileGlob"
  define read where
    "read = map (\<lambda>p. \<lparr>contents = base64_encode (content p), filepath = p\<rparr>) filtered"
  have "set order = set [0..<length filtered]"
    using assms(3) unfolding filtered_def by (rule mset_eq_setD)
  moreover have "length read = length filtered"
    by (simp add: read_def)
  ultimately have "{..<length read} \<subseteq> set order"
    by (simp add: atLeast0LessThan)
  then have "Promise_all order (map Inr read) = Some (Inr read)"
    by (rule Promise_all_fulfilled)
  moreover have "map (read_and_encode readFile) filtered = map Inr read"
    using assms(2) unfolding read_def filtered_def by (rule fileReads_fulfilled)
  ultimately have all: "Promise_all order (map (read_and_encode readFile) filtered) = Some (Inr read)"
    by (simp only:)
  have entries: "map (\<lambda>f. (filepath f, contents f)) read
      = map (\<lambda>p. (p, base64_encode (content p))) filtered"
    by (simp add: read_def comp_def)
  have "Base64Filesystem glob readFile order globPattern filters
      = (case Promise_all order (map (read_and_encode readFile) filtered) of
           None \<Rightarrow> None
         | Some (Inl err) \<Rightarrow> Some (Inl (wrapError (wrapError err)))
         | Some (Inr read) \<Rightarrow>
             Some (Inr (FileSystem (map (\<lambda>f. (filepath f, contents f)) read))))"
    by (simp add: Base64Filesystem_def assms(1) Let_def filtered_def)
  also have "\<dots> = Some (Inr (FileSystem (map (\<lambda>f. (filepath f, contents f)) read)))"
    by (simp only: all option.case sum.case)
  finally show ?thesis by (simp only: entries filtered_def)
qed

text \<open>
  C6. When the expansion succeeds and every read of a surviving path succeeds, then for
  every order in which the reads settle (every permutation of their indices) the snapshot
  has one entry per surviving path, in the order of the enumeration, each with the base64
  text of that file; the TSV, CSV and JSON texts list the entries in that same order.
\<close>

theorem snapshot_in_enumeration_order:
  assumes "glob globPattern = Inr fileGlob"
    and "list_all (\<lambda>p. readFile p = Inr (content p)) (apply_filters filters fileGlob)"
    and "mset order = mset [0..<length (apply_filters filters fileGlob)]"
  shows "\<exists>snapshot.
           Base64Filesystem glob readFile order globPattern filters = Some (Inr snapshot)
         \<and> files snapshot = map (\<lambda>p. (p, base64_encode (content p))) (apply_filters filters fileGlob)
         \<and> FileSystem_asTSV snapshot =
             ''filepath'' @ tab # ''content'' @
             concat (map (\<lambda>p. newline # p @ tab # base64_encode (content p))
                         (apply_filters filters fileGlob))
         \<and> fst (FileSystem_asCSV snapshot) =
             ''filepath,content'' @
             concat (map (\<lambda>p. newline # replace_commas p @ comma # base64_encode (content p))
                         (apply_filters filters fileGlob))
         \<and> FileSystem_asJSON snapshot =
             JSON_stringify (JSONArray (map (\<lambda>p. JSONArray [JSONString p,
                                                   JSONString (base64_encode (content p))])
                                            (apply_filters filters fileGlob)))"
proof -
  let ?entries = "map (\<lambda>p. (p, base64_encode (content p))) (apply_filters filters fileGlob)"
  have built: "Base64Filesystem glob readFile order globPattern filters
                 = Some (Inr (FileSystem ?entries))"
    using assms by (rule Base64Filesystem_fulfilled)
  have stored: "files (FileSystem ?entries) = ?entries"
    by (simp add: FileSystem_def)
  have tsv: "FileSystem_asTSV (FileSystem ?entries) =
             ''filepath'' @ tab # ''content'' @
             concat (map (\<lambda>p. newline # p @ tab # base64_encode (content p))
                         (apply_filters filters fileGlob))"
    unfolding FileSystem_asTSV_def stored asTSV_text by (simp add: comp_def)
  have csv: "fst (FileSystem_asCSV (FileSystem ?entries)) =
             ''filepath,content'' @
             concat (map (\<lambda>p. newline # replace_commas p @ comma # base64_encode (content p))
                         (apply_filters filters fileGlob))"
    unfolding FileSystem_asCSV_def stored split_def fst_conv asCSV_text by (simp add: comp_def)
  have json: "FileSystem_asJSON (FileSystem ?entries) =
             JSON_stringify (JSONArray (map (\<lambda>p. JSONArray [JSONString p,
                                                   JSONString (base64_encode (content p))])
                                            (apply_filters filters fileGlob)))"
    unfolding FileSystem_asJSON_def stored files_json_def by (simp only: map_map comp_def fst_conv snd_conv)
  from built stored tsv csv json show ?thesis by blast
qed

theorem snapshot_in_enumeration_order_witness:
  "(\<lambda>pattern. Inr [''a.txt'', ''b.txt'']) ''*.txt'' = (Inr [''a.txt'', ''b.txt''] :: js_value + Filepath list)
   \<and> list_all (\<lambda>p. (if p = ''a.txt'' then Inr [104, 105] else Inr [121, 111])
                    = (Inr (if p = ''a.txt'' then [104, 105] else [121, 111]) :: js_value + byte list))
        (apply_filters [] [''a.txt'', ''b.txt''])
   \<and> mset [1, 0] = mset [0..<length (apply_filters [] [''a.txt'', ''b.txt''])]
   \<and> Base64Filesystem (\<lambda>pattern. Inr [''a.txt'', ''b.txt''])
        (\<lambda>p. if p = ''a.txt'' then Inr [104, 105] else Inr [121, 111]) [1, 0] ''*.txt'' []
      = Some (Inr (FileSystem [(''a.txt'', ''aGk=''), (''b.txt'', ''eW8='')]))"
  using snapshot_in_enumeration_order
    [of "\<lambda>pattern. Inr [''a.txt'', ''b.txt'']" "''*.txt''" "[''a.txt'', ''b.txt'']"
        "\<lambda>p. if p = ''a.txt'' then Inr [104, 105] else Inr [121, 111]"
        "\<lambda>p. if p = ''a.txt'' then [104, 105] else [121, 111]" "[]" "[1, 0]"]
  by (auto simp: apply_filters_def FileSystem_def upt_rec add_mset_commute table_char_def
      base64_table_def)

end
